theory Spec2Isabelle
  imports Main "HOL-Library.Word" "HOL-Library.Multiset"
begin

section \<open>JavaScript values used by the extension\<close>

text \<open>
  A JavaScript string is a sequence of 16-bit UTF-16 code units; \<open>s.length\<close> counts
  code units and \<open>s.charCodeAt(i)\<close> reads the unit at index \<open>i\<close> as a number in
  \<open>0..65535\<close>. The string literals of the source are ASCII; \<open>asc\<close> embeds them.
\<close>

type_synonym jsstring = "16 word list"

definition asc :: "string \<Rightarrow> jsstring" where
  "asc s = map of_char s"

text \<open>
  \<open>charCodeAt\<close> is only called with \<open>i < minLen\<close> in the source (the loop guard), so
  the out-of-range answer (NaN) never arises there.
\<close>

definition charCodeAt :: "jsstring \<Rightarrow> nat \<Rightarrow> int" where
  "charCodeAt s i = uint (s ! i)"

text \<open>
  The numbers the comparator computes are differences and products of integers (priorities,
  code units, lengths, sizes in bytes, time values in milliseconds), or NaN when a
  timestamp does not parse. A number is modelled as \<open>int option\<close>, \<open>None\<close> being NaN.
  Doubles hold these integers exactly; only the difference of two time values can be
  rounded, which keeps its sign, and the sort reads nothing but the sign of a
  comparison.
\<close>

type_synonym jsnumber = "int option"

definition num_minus :: "jsnumber \<Rightarrow> jsnumber \<Rightarrow> jsnumber" where
  "num_minus x y = (case (x, y) of (Some u, Some v) \<Rightarrow> Some (u - v) | _ \<Rightarrow> None)"

definition num_times :: "jsnumber \<Rightarrow> int \<Rightarrow> jsnumber" where
  "num_times x r = (case x of Some u \<Rightarrow> Some (u * r) | None \<Rightarrow> None)"

section \<open>The data model\<close>

text \<open>
  The fields of \<open>Contents.IModel\<close> that the sort reads. \<open>last_modified\<close> holds the
  value of \<open>new Date(item.last_modified).getTime()\<close>: the time value in milliseconds,
  or \<open>None\<close> (NaN) for a timestamp that does not parse. \<open>size_bytes\<close> is the optional
  \<open>size\<close>, \<open>None\<close> when it is \<open>undefined\<close> or \<open>null\<close>.
\<close>

record entry =
  name :: jsstring
  type :: jsstring
  last_modified :: jsnumber
  size_bytes :: "int option"

datatype direction = Ascending | Descending

record sort_state =
  direction :: direction
  key :: jsstring

text \<open>The two module-level flags \<open>sortNotebooksFirst\<close> and \<open>useCLocaleSorting\<close>.\<close>

record config =
  sortNotebooksFirst :: bool
  useCLocaleSorting :: bool

definition initial_config :: config where
  "initial_config = \<lparr>sortNotebooksFirst = False, useCLocaleSorting = True\<rparr>"

section \<open>The name comparators\<close>

text \<open>The \<open>for\<close> loop of \<open>cLocaleCompare\<close>, with its index \<open>i\<close> as an argument.\<close>

function cLocaleCompare_loop :: "jsstring \<Rightarrow> jsstring \<Rightarrow> nat \<Rightarrow> nat \<Rightarrow> int" where
  "cLocaleCompare_loop a b minLen i =
     (if i < minLen then
        (if charCodeAt a i \<noteq> charCodeAt b i then charCodeAt a i - charCodeAt b i
         else cLocaleCompare_loop a b minLen (i + 1))
      else int (length a) - int (length b))"
  by pat_completeness auto
termination
  by (relation "measure (\<lambda>(a, b, minLen, i). minLen - i)") auto

declare cLocaleCompare_loop.simps [simp del]

definition cLocaleCompare :: "jsstring \<Rightarrow> jsstring \<Rightarrow> int" where
  "cLocaleCompare a b = cLocaleCompare_loop a b (min (length a) (length b)) 0"

text \<open>
  \<open>defaultLocaleCompare\<close> calls the host's \<open>String.prototype.localeCompare\<close> with
  \<open>{numeric: true, sensitivity: 'base'}\<close>. The collation is the host's (ICU), not
  the repository's: it is the parameter \<open>lc\<close> of everything below. ECMA-262 requires
  it to be a consistent comparator that orders all strings: \<open>consistent_comparator\<close>.
\<close>

definition defaultLocaleCompare ::
  "(jsstring \<Rightarrow> jsstring \<Rightarrow> int) \<Rightarrow> jsstring \<Rightarrow> jsstring \<Rightarrow> int" where
  "defaultLocaleCompare lc a b = lc a b"

definition sign_antisymmetric :: "(jsstring \<Rightarrow> jsstring \<Rightarrow> int) \<Rightarrow> bool" where
  "sign_antisymmetric lc \<longleftrightarrow> (\<forall>a b. sgn (lc b a) = - sgn (lc a b))"

definition consistent_comparator :: "(jsstring \<Rightarrow> jsstring \<Rightarrow> int) \<Rightarrow> bool" where
  "consistent_comparator lc \<longleftrightarrow>
     (\<forall>a b. sgn (lc b a) = - sgn (lc a b)) \<and>
     (\<forall>a b c. lc a b \<le> 0 \<and> lc b c \<le> 0 \<longrightarrow> lc a c \<le> 0)"

section \<open>\<open>Array.prototype.sort\<close>\<close>

text \<open>
  The engine's sort is host code. ECMAScript's \<open>SortCompare\<close> calls the comparison
  function and reads a NaN result as \<open>+0\<close>. The result is always a permutation of the
  array. When the comparison function is a consistent comparator on the elements of the
  array, the language fixes the result: it is sorted, and elements that compare equal
  keep their order. \<open>Array_sort\<close>, an insertion sort that moves an element to the right
  only past elements it is strictly greater than, is that result (\<open>Array_sort_unique_on\<close>
  and \<open>Array_sort_sorted_stable_on\<close> below), so it is every conforming engine's sort
  there.

  When the comparison function is not consistent, the language leaves the order to the
  engine, and \<open>Array_sort\<close> is not the engine's sort. In this program that happens for an
  unparseable timestamp under the key \<open>last_modified\<close>, where the comparison function
  returns NaN. What is proved of the order of the result below is therefore proved where
  the timestamps parse (\<open>timestamps_parse\<close>); what is proved without that reads only
  facts that hold of every engine (the result is a permutation) or a key under which no
  NaN arises.
\<close>

definition SortCompare :: "('a \<Rightarrow> 'a \<Rightarrow> jsnumber) \<Rightarrow> 'a \<Rightarrow> 'a \<Rightarrow> int" where
  "SortCompare comparefn x y = (case comparefn x y of None \<Rightarrow> 0 | Some v \<Rightarrow> v)"

fun insert_sorted :: "('a \<Rightarrow> 'a \<Rightarrow> jsnumber) \<Rightarrow> 'a \<Rightarrow> 'a list \<Rightarrow> 'a list" where
  "insert_sorted comparefn x [] = [x]"
| "insert_sorted comparefn x (y # ys) =
     (if SortCompare comparefn x y \<le> 0 then x # y # ys
      else y # insert_sorted comparefn x ys)"

fun Array_sort :: "('a \<Rightarrow> 'a \<Rightarrow> jsnumber) \<Rightarrow> 'a list \<Rightarrow> 'a list" where
  "Array_sort comparefn [] = []"
| "Array_sort comparefn (x # xs) = insert_sorted comparefn x (Array_sort comparefn xs)"

section \<open>\<open>sortItems\<close>\<close>

definition reverse :: "sort_state \<Rightarrow> int" where
  "reverse state = (if direction state = Descending then - 1 else 1)"

definition getPriority :: "config \<Rightarrow> entry \<Rightarrow> int" where
  "getPriority cfg item =
     (if type item = asc ''directory'' then 0
      else if sortNotebooksFirst cfg \<and> type item = asc ''notebook'' then 1
      else 2)"

definition compareByName ::
  "(jsstring \<Rightarrow> jsstring \<Rightarrow> int) \<Rightarrow> config \<Rightarrow> entry \<Rightarrow> entry \<Rightarrow> int" where
  "compareByName lc cfg a b =
     (if useCLocaleSorting cfg then cLocaleCompare (name a) (name b)
      else defaultLocaleCompare lc (name a) (name b))"

text \<open>\<open>x ?? 0\<close>.\<close>

definition or_zero :: "int option \<Rightarrow> int" where
  "or_zero x = (case x of None \<Rightarrow> 0 | Some v \<Rightarrow> v)"

text \<open>The arrow function passed to \<open>copy.sort\<close>.\<close>

definition compare ::
  "(jsstring \<Rightarrow> jsstring \<Rightarrow> int) \<Rightarrow> config \<Rightarrow> sort_state \<Rightarrow> entry \<Rightarrow> entry \<Rightarrow> jsnumber" where
  "compare lc cfg state a b =
     (let priorityA = getPriority cfg a; priorityB = getPriority cfg b in
      if priorityA \<noteq> priorityB then Some (priorityA - priorityB)
      else
        let result =
          (if key state = asc ''last_modified'' then
             num_minus (last_modified a) (last_modified b)
           else if key state = asc ''file_size'' then
             Some (or_zero (size_bytes b) - or_zero (size_bytes a))
           else Some (compareByName lc cfg a b))
        in num_times result (reverse state))"

definition sortItems ::
  "(jsstring \<Rightarrow> jsstring \<Rightarrow> int) \<Rightarrow> config \<Rightarrow> entry list \<Rightarrow> sort_state \<Rightarrow> entry list" where
  "sortItems lc cfg items state = Array_sort (compare lc cfg state) items"

text \<open>
  Under the key \<open>last_modified\<close> the comparison function returns NaN for an entry whose
  timestamp does not parse. \<open>timestamps_parse\<close> says that no entry of the list is such
  an entry when the key is \<open>last_modified\<close>.
\<close>

definition timestamps_parse :: "sort_state \<Rightarrow> entry list \<Rightarrow> bool" where
  "timestamps_parse state items \<longleftrightarrow>
     (key state = asc ''last_modified'' \<longrightarrow> (\<forall>e\<in>set items. last_modified e \<noteq> None))"

subsection \<open>\<open>sortItems\<close> on a store of arrays\<close>

text \<open>
  \<open>sortItems\<close> copies its argument (\<open>const copy = [...items]\<close>), sorts the copy in
  place and returns it. To say what happens to the argument, arrays live in a store: an
  array reference is an index into the list of all arrays, and allocating appends.
\<close>

type_synonym store = "entry list list"

definition sortItems_store ::
  "(jsstring \<Rightarrow> jsstring \<Rightarrow> int) \<Rightarrow> config \<Rightarrow> store \<Rightarrow> nat \<Rightarrow> sort_state \<Rightarrow> nat \<times> store" where
  "sortItems_store lc cfg s items state =
     (let copy = length s;
          s1 = s @ [s ! items];
          s2 = s1[copy := Array_sort (compare lc cfg state) (s1 ! copy)]
      in (copy, s2))"

section \<open>V8's sort of a short array\<close>

text \<open>
  Where the language leaves the order open, what the program returns is what the engine
  does. This is V8's \<open>Array.prototype.sort\<close> (\<open>ArrayTimSortImpl\<close> in V8's
  \<open>third_party/v8/builtins/array-sort.tq\<close>) for an array of fewer than 64 elements. It is
  host code, not code of the repository. For such an array the minimal run length is the
  length of the array, so the sort is: \<open>CountAndMakeRun\<close> finds the run at the start of
  the array (non-descending, or strictly descending and then reversed), and
  \<open>BinaryInsertionSort\<close> inserts each later element at the place a binary search gives.
  The merging of runs, which longer arrays need, is not modelled: \<open>v8_sort\<close> is \<open>None\<close>
  for them.
\<close>

text \<open>
  The loop of \<open>CountAndMakeRun\<close>: how many elements after the second continue the run.
\<close>

fun run_length_from :: "('a \<Rightarrow> 'a \<Rightarrow> jsnumber) \<Rightarrow> bool \<Rightarrow> 'a \<Rightarrow> 'a list \<Rightarrow> nat" where
  "run_length_from comparefn isDescending previousElement [] = 0"
| "run_length_from comparefn isDescending previousElement (currentElement # rest) =
     (if (if isDescending then 0 \<le> SortCompare comparefn currentElement previousElement
          else SortCompare comparefn currentElement previousElement < 0)
      then 0
      else Suc (run_length_from comparefn isDescending currentElement rest))"

definition CountAndMakeRun :: "('a \<Rightarrow> 'a \<Rightarrow> jsnumber) \<Rightarrow> 'a list \<Rightarrow> nat \<times> 'a list" where
  "CountAndMakeRun comparefn workArray =
     (case workArray of
        elementHigh # elementLow # rest \<Rightarrow>
          (let isDescending = SortCompare comparefn elementLow elementHigh < 0;
               runLength = 2 + run_length_from comparefn isDescending elementLow rest
           in (runLength,
               if isDescending then rev (take runLength workArray) @ drop runLength workArray
               else workArray))
      | _ \<Rightarrow> (length workArray, workArray))"

text \<open>
  The inner loop of \<open>BinaryInsertionSort\<close>: \<open>mid = left + ((right - left) >> 1)\<close>; a
  pivot that compares less than the element at \<open>mid\<close> goes left of it, any other pivot
  right of it.
\<close>

function binary_search ::
  "('a \<Rightarrow> 'a \<Rightarrow> jsnumber) \<Rightarrow> 'a \<Rightarrow> 'a list \<Rightarrow> nat \<Rightarrow> nat \<Rightarrow> nat" where
  "binary_search comparefn pivot workArray left right =
     (if left < right then
        (if SortCompare comparefn pivot (workArray ! (left + (right - left) div 2)) < 0
         then binary_search comparefn pivot workArray left (left + (right - left) div 2)
         else binary_search comparefn pivot workArray (left + (right - left) div 2 + 1) right)
      else left)"
  by pat_completeness auto
termination
  by (relation "measure (\<lambda>(comparefn, pivot, workArray, left, right). right - left)") auto

declare binary_search.simps [simp del]

text \<open>Moving the elements from \<open>left\<close> to \<open>start - 1\<close> up by one and storing the pivot.\<close>

definition move_pivot :: "'a list \<Rightarrow> nat \<Rightarrow> nat \<Rightarrow> 'a list" where
  "move_pivot workArray start left =
     take left workArray @ [workArray ! start] @ take (start - left) (drop left workArray) @
     drop (Suc start) workArray"

function BinaryInsertionSort_loop ::
  "('a \<Rightarrow> 'a \<Rightarrow> jsnumber) \<Rightarrow> 'a list \<Rightarrow> nat \<Rightarrow> nat \<Rightarrow> nat \<Rightarrow> 'a list" where
  "BinaryInsertionSort_loop comparefn workArray low start high =
     (if start < high then
        BinaryInsertionSort_loop comparefn
          (move_pivot workArray start
             (binary_search comparefn (workArray ! start) workArray low start))
          low (start + 1) high
      else workArray)"
  by pat_completeness auto
termination
  by (relation "measure (\<lambda>(comparefn, workArray, low, start, high). high - start)") auto

declare BinaryInsertionSort_loop.simps [simp del]

definition BinaryInsertionSort ::
  "('a \<Rightarrow> 'a \<Rightarrow> jsnumber) \<Rightarrow> 'a list \<Rightarrow> nat \<Rightarrow> nat \<Rightarrow> nat \<Rightarrow> 'a list" where
  "BinaryInsertionSort comparefn workArray low startArg high =
     BinaryInsertionSort_loop comparefn workArray low
       (if low = startArg then startArg + 1 else startArg) high"

text \<open>\<open>ArrayTimSortImpl\<close>, with \<open>low = 0\<close> and \<open>minRunLength = length\<close>.\<close>

definition v8_sort :: "('a \<Rightarrow> 'a \<Rightarrow> jsnumber) \<Rightarrow> 'a list \<Rightarrow> 'a list option" where
  "v8_sort comparefn xs =
     (if length xs < 2 then Some xs
      else if 64 \<le> length xs then None
      else
        (let (currentRunLength, workArray) = CountAndMakeRun comparefn xs in
         if currentRunLength < length xs
         then Some (BinaryInsertionSort comparefn workArray 0 currentRunLength (length xs))
         else Some workArray))"

text \<open>\<open>sortItems\<close> as V8 runs it on fewer than 64 items.\<close>

definition sortItems_v8 ::
  "(jsstring \<Rightarrow> jsstring \<Rightarrow> int) \<Rightarrow> config \<Rightarrow> entry list \<Rightarrow> sort_state \<Rightarrow> entry list option" where
  "sortItems_v8 lc cfg items state = v8_sort (compare lc cfg state) items"

section \<open>The configuration and the patched listing\<close>

text \<open>
  The toggle command without a settings registry
  (\<open>useCLocaleSorting = !useCLocaleSorting\<close>), and the handlers that store a loaded
  setting (\<open>(settings.get(...).composite as boolean) ?? default\<close>).
\<close>

definition toggle_useCLocaleSorting :: "config \<Rightarrow> config" where
  "toggle_useCLocaleSorting cfg = cfg\<lparr>useCLocaleSorting := \<not> useCLocaleSorting cfg\<rparr>"

definition load_useCLocaleSorting :: "bool option \<Rightarrow> config \<Rightarrow> config" where
  "load_useCLocaleSorting v cfg =
     cfg\<lparr>useCLocaleSorting := (case v of None \<Rightarrow> True | Some b \<Rightarrow> b)\<rparr>"

definition load_sortNotebooksFirst :: "bool option \<Rightarrow> config \<Rightarrow> config" where
  "load_sortNotebooksFirst v cfg =
     cfg\<lparr>sortNotebooksFirst := (case v of None \<Rightarrow> False | Some b \<Rightarrow> b)\<rparr>"

text \<open>
  Flipping a flag through the settings: the new setting is the negation of the current
  flag, and the change handler stores it.
\<close>

definition flip_useCLocaleSorting :: "config \<Rightarrow> config" where
  "flip_useCLocaleSorting cfg = load_useCLocaleSorting (Some (\<not> useCLocaleSorting cfg)) cfg"

definition flip_sortNotebooksFirst :: "config \<Rightarrow> config" where
  "flip_sortNotebooksFirst cfg = load_sortNotebooksFirst (Some (\<not> sortNotebooksFirst cfg)) cfg"

text \<open>
  The host's listing, as far as the patch touches it: \<open>model\<close> is the snapshot
  \<open>Array.from(model.items())\<close>, \<open>None\<close> when \<open>this.model\<close> is absent;
  \<open>priv_sortState\<close> and \<open>priv_sortedItems\<close> are \<open>_sortState\<close> and \<open>_sortedItems\<close>.
  The patch adds the closure variable \<open>customSortedItems\<close>, which the overridden getter
  \<open>sortedItems\<close> returns. The host's own \<open>sort\<close> (\<open>originalSort\<close>) is not code of
  this repository: it is a parameter that may change the host's fields, and cannot reach
  the closure variable.
\<close>

record listing =
  model :: "entry list option"
  priv_sortState :: "sort_state option"
  priv_sortedItems :: "entry list"

record patched_listing =
  host :: listing
  customSortedItems :: "entry list"

definition sortedItems :: "patched_listing \<Rightarrow> entry list" where
  "sortedItems pl = customSortedItems pl"

text \<open>The calls the patched \<open>sort\<close> makes, in order.\<close>

datatype call = OriginalSort sort_state | SortItems "entry list" sort_state | Update

fun is_SortItems :: "call \<Rightarrow> bool" where
  "is_SortItems (SortItems items state) = True"
| "is_SortItems (OriginalSort state) = False"
| "is_SortItems Update = False"

definition patched_sort ::
  "(sort_state \<Rightarrow> listing \<Rightarrow> listing) \<Rightarrow> (jsstring \<Rightarrow> jsstring \<Rightarrow> int) \<Rightarrow> config \<Rightarrow>
   sort_state \<Rightarrow> patched_listing \<Rightarrow> patched_listing \<times> call list" where
  "patched_sort originalSort lc cfg state pl =
     (case model (host pl) of
        None \<Rightarrow> (pl\<lparr>host := originalSort state (host pl)\<rparr>, [OriginalSort state])
      | Some itemsArray \<Rightarrow>
          if length itemsArray = 0 then
            (\<lparr>host = originalSort state
                 ((host pl)\<lparr>priv_sortState := Some state, priv_sortedItems := []\<rparr>),
              customSortedItems = []\<rparr>,
             [OriginalSort state])
          else
            (let sorted = sortItems lc cfg itemsArray state in
             (\<lparr>host = (host pl)\<lparr>priv_sortedItems := sorted, priv_sortState := Some state\<rparr>,
               customSortedItems = sorted\<rparr>,
              [SortItems itemsArray state, Update])))"

text \<open>
  The handler connected to \<open>model.refreshed\<close>:
  \<open>if (listing.sortState) { listing.sort(listing.sortState); }\<close>.
\<close>

definition on_refreshed ::
  "(sort_state \<Rightarrow> listing \<Rightarrow> listing) \<Rightarrow> (jsstring \<Rightarrow> jsstring \<Rightarrow> int) \<Rightarrow> config \<Rightarrow>
   patched_listing \<Rightarrow> patched_listing \<times> call list" where
  "on_refreshed originalSort lc cfg pl =
     (case priv_sortState (host pl) of
        None \<Rightarrow> (pl, [])
      | Some state \<Rightarrow> patched_sort originalSort lc cfg state pl)"

section \<open>The specification's reading of the name comparator\<close>

text \<open>
  The specification speaks of code points. A code point outside the Basic Multilingual
  Plane is two code units in a JavaScript string, a high surrogate followed by a low
  one. \<open>code_points\<close> decodes a string as \<open>String.prototype.codePointAt\<close> and the
  string iterator do (an unpaired surrogate stands for itself), and
  \<open>spec_codePointCompare\<close> follows the specification's words: the first differing code
  point decides, and a prefix sorts first.
\<close>

definition is_high_surrogate :: "16 word \<Rightarrow> bool" where
  "is_high_surrogate u \<longleftrightarrow> 0xD800 \<le> u \<and> u \<le> 0xDBFF"

definition is_low_surrogate :: "16 word \<Rightarrow> bool" where
  "is_low_surrogate u \<longleftrightarrow> 0xDC00 \<le> u \<and> u \<le> 0xDFFF"

fun code_points :: "jsstring \<Rightarrow> int list" where
  "code_points (h # l # us) =
     (if is_high_surrogate h \<and> is_low_surrogate l
      then (0x10000 + (uint h - 0xD800) * 0x400 + (uint l - 0xDC00)) # code_points us
      else uint h # code_points (l # us))"
| "code_points [u] = [uint u]"
| "code_points [] = []"

fun compare_points :: "int list \<Rightarrow> int list \<Rightarrow> int" where
  "compare_points (x # xs) (y # ys) = (if x \<noteq> y then x - y else compare_points xs ys)"
| "compare_points xs ys = int (length xs) - int (length ys)"

definition spec_codePointCompare :: "jsstring \<Rightarrow> jsstring \<Rightarrow> int" where
  "spec_codePointCompare a b = compare_points (code_points a) (code_points b)"

section \<open>The example of the specification\<close>

definition example_names :: "jsstring list" where
  "example_names =
     map asc [''.hidden'', ''.profile'', ''123file'', ''ABC'', ''Makefile'', ''README'',
       ''_config'', ''abc'', ''readme'', ''zebra'']"

definition file_named :: "jsstring \<Rightarrow> entry" where
  "file_named n = \<lparr>name = n, type = asc ''file'', last_modified = Some 0, size_bytes = None\<rparr>"

definition name_ascending :: sort_state where
  "name_ascending = \<lparr>direction = Ascending, key = asc ''name''\<rparr>"

definition name_descending :: sort_state where
  "name_descending = \<lparr>direction = Descending, key = asc ''name''\<rparr>"

definition dir_named :: "jsstring \<Rightarrow> entry" where
  "dir_named n =
     \<lparr>name = n, type = asc ''directory'', last_modified = Some 0, size_bytes = None\<rparr>"

definition notebook_named :: "jsstring \<Rightarrow> entry" where
  "notebook_named n =
     \<lparr>name = n, type = asc ''notebook'', last_modified = Some 0, size_bytes = Some 10\<rparr>"

definition scrambled_items :: "entry list" where
  "scrambled_items =
     map (\<lambda>n. file_named (asc n)) [''readme'', ''ABC'', ''zebra'', ''.profile'', ''_config'', ''123file'',
       ''Makefile'', ''abc'', ''.hidden'', ''README'']"

definition mixed_items :: "entry list" where
  "mixed_items =
     [file_named (asc ''b.txt''), dir_named (asc ''src''), notebook_named (asc ''a.ipynb''),
      dir_named (asc ''docs'')]"


definition size_ascending :: sort_state where
  "size_ascending = \<lparr>direction = Ascending, key = asc ''file_size''\<rparr>"

definition sized_file :: "jsstring \<Rightarrow> int option \<Rightarrow> entry" where
  "sized_file n s = \<lparr>name = n, type = asc ''file'', last_modified = Some 0, size_bytes = s\<rparr>"

definition sized_items :: "entry list" where
  "sized_items = [sized_file (asc ''small'') (Some 5), sized_file (asc ''none'') None,
     sized_file (asc ''big'') (Some 700)]"

text \<open>
  A stand-in for the host's \<open>localeCompare\<close>, used only to evaluate concrete listings:
  it compares code units after folding ASCII upper case to lower case.
\<close>

definition fold_case :: "16 word \<Rightarrow> 16 word" where
  "fold_case u = (if 0x41 \<le> u \<and> u \<le> 0x5A then u + 0x20 else u)"

definition caseless_compare :: "jsstring \<Rightarrow> jsstring \<Rightarrow> int" where
  "caseless_compare a b = cLocaleCompare (map fold_case a) (map fold_case b)"

definition locale_config :: config where
  "locale_config = \<lparr>sortNotebooksFirst = False, useCLocaleSorting = False\<rparr>"

definition case_items :: "entry list" where
  "case_items = [file_named (asc ''abc''), file_named (asc ''ABC''), file_named (asc ''aaa'')]"

definition stale_listing :: patched_listing where
  "stale_listing =
     \<lparr>host = \<lparr>model = Some [], priv_sortState = Some name_descending,
         priv_sortedItems = mixed_items\<rparr>,
      customSortedItems = mixed_items\<rparr>"

definition unknown_key_descending :: sort_state where
  "unknown_key_descending = \<lparr>direction = Descending, key = asc ''created''\<rparr>"

definition time_ascending :: sort_state where
  "time_ascending = \<lparr>direction = Ascending, key = asc ''last_modified''\<rparr>"

definition file_at :: "jsstring \<Rightarrow> jsnumber \<Rightarrow> entry" where
  "file_at n t = \<lparr>name = n, type = asc ''file'', last_modified = t, size_bytes = None\<rparr>"

definition undated_items :: "entry list" where
  "undated_items =
     [file_at (asc ''f0'') (Some 30), file_at (asc ''f1'') (Some 10), file_at (asc ''f2'') None,
      file_at (asc ''f3'') (Some 20)]"



section \<open>Properties of \<open>cLocaleCompare\<close>\<close>

text \<open>The loop, read off the two strings from index \<open>i\<close> on.\<close>

fun compare_units :: "jsstring \<Rightarrow> jsstring \<Rightarrow> int" where
  "compare_units (x # xs) (y # ys) =
     (if x \<noteq> y then uint x - uint y else compare_units xs ys)"
| "compare_units xs ys = int (length xs) - int (length ys)"

lemma cLocaleCompare_loop_units:
  "i \<le> min (length a) (length b) \<Longrightarrow>
   cLocaleCompare_loop a b (min (length a) (length b)) i = compare_units (drop i a) (drop i b)"
proof (induction a b "min (length a) (length b)" i rule: cLocaleCompare_loop.induct)
  case (1 a b i)
  show ?case
  proof (cases "i < min (length a) (length b)")
    case True
    then have da: "drop i a = a ! i # drop (Suc i) a" and db: "drop i b = b ! i # drop (Suc i) b"
      by (simp_all add: Cons_nth_drop_Suc)
    have eq: "uint (a ! i) = uint (b ! i) \<longleftrightarrow> a ! i = b ! i"
      by (simp add: word_uint_eq_iff)
    show ?thesis
    proof (cases "a ! i = b ! i")
      case same: True
      from True same have "charCodeAt a i = charCodeAt b i"
        by (simp add: charCodeAt_def)
      with True 1 have "cLocaleCompare_loop a b (min (length a) (length b)) (i + 1) =
          compare_units (drop (i + 1) a) (drop (i + 1) b)"
        by simp
      then show ?thesis
        using True same by (subst cLocaleCompare_loop.simps) (simp add: da db charCodeAt_def)
    next
      case differ: False
      then show ?thesis
        using True eq by (subst cLocaleCompare_loop.simps) (simp add: da db charCodeAt_def)
    qed
  next
    case False
    with 1(2) have "i = min (length a) (length b)" by linarith
    then have "drop i a = [] \<or> drop i b = []"
      by (auto simp: min_def split: if_splits)
    then have "compare_units (drop i a) (drop i b) =
        int (length (drop i a)) - int (length (drop i b))"
      by (cases "drop i a"; cases "drop i b") auto
    also have "\<dots> = int (length a) - int (length b)"
      using 1(2) by simp
    finally have "compare_units (drop i a) (drop i b) = int (length a) - int (length b)" .
    then show ?thesis
      using False by (subst cLocaleCompare_loop.simps) auto
  qed
qed

lemma cLocaleCompare_units: "cLocaleCompare a b = compare_units a b"
  using cLocaleCompare_loop_units [of 0 a b] by (simp add: cLocaleCompare_def)

lemma compare_units_refl: "compare_units a a = 0"
  by (induction a) auto

lemma compare_units_eq_0: "compare_units a b = 0 \<longleftrightarrow> a = b"
  by (induction a b rule: compare_units.induct) (auto simp: word_uint_eq_iff)

lemma compare_units_antisym: "compare_units b a = - compare_units a b"
  by (induction a b rule: compare_units.induct) auto

lemma compare_units_first_diff:
  "i < length a \<Longrightarrow> i < length b \<Longrightarrow> take i a = take i b \<Longrightarrow> a ! i \<noteq> b ! i \<Longrightarrow>
   compare_units a b = uint (a ! i) - uint (b ! i)"
proof (induction i arbitrary: a b)
  case 0
  then show ?case by (cases a; cases b) auto
next
  case (Suc i)
  then show ?case by (cases a; cases b) auto
qed

lemma compare_units_Nil: "compare_units [] c = - int (length c)"
  by (cases c) auto

lemma compare_units_prefix: "compare_units a (a @ c) = - int (length c)"
  by (induction a) (auto simp: compare_units_Nil)

lemma compare_units_trans:
  "compare_units a b \<le> 0 \<Longrightarrow> compare_units b c \<le> 0 \<Longrightarrow> compare_units a c \<le> 0"
proof (induction a arbitrary: b c)
  case Nil
  then show ?case by (simp add: compare_units_Nil)
next
  case (Cons x xs)
  from Cons.prems(1) obtain y ys where b: "b = y # ys"
    by (cases b) auto
  from Cons.prems(2) b obtain z zs where c: "c = z # zs"
    by (cases c) auto
  show ?case
  proof (cases "x = y \<and> y = z")
    case True
    with Cons b c show ?thesis by auto
  next
    case False
    with Cons.prems b c show ?thesis
      by (auto split: if_splits simp: word_uint_eq_iff)
  qed
qed


lemma code_points_no_surrogates:
  "\<forall>u\<in>set s. \<not> is_high_surrogate u \<Longrightarrow> code_points s = map uint s"
  by (induction s rule: code_points.induct) auto

lemma compare_points_units: "compare_points (map uint a) (map uint b) = compare_units a b"
  by (induction a b rule: compare_units.induct) (auto simp: word_uint_eq_iff)

section \<open>Properties of \<open>Array.prototype.sort\<close>\<close>

lemma mset_insert_sorted: "mset (insert_sorted c x ys) = add_mset x (mset ys)"
  by (induction ys) auto

lemma mset_Array_sort: "mset (Array_sort c xs) = mset xs"
  by (induction xs) (auto simp: mset_insert_sorted)

lemma set_insert_sorted: "set (insert_sorted c x ys) = insert x (set ys)"
  by (induction ys) auto

lemma set_Array_sort: "set (Array_sort c xs) = set xs"
  by (induction xs) (auto simp: set_insert_sorted)

lemma length_Array_sort: "length (Array_sort c xs) = length xs"
  using mset_Array_sort [of c xs] by (metis size_mset)

lemma sorted_wrt_insert_sorted:
  assumes tr: "\<And>x y z. R x y \<Longrightarrow> R y z \<Longrightarrow> R x z"
    and le: "\<And>y. SortCompare c x y \<le> 0 \<Longrightarrow> R x y"
    and gt: "\<And>y. 0 < SortCompare c x y \<Longrightarrow> R y x"
    and srt: "sorted_wrt R ys"
  shows "sorted_wrt R (insert_sorted c x ys)"
  using srt
proof (induction ys)
  case Nil
  then show ?case by simp
next
  case (Cons y ys)
  show ?case
  proof (cases "SortCompare c x y \<le> 0")
    case True
    then have "R x y" by (rule le)
    with Cons.prems have "\<forall>z\<in>set (y # ys). R x z"
      by (auto intro: tr)
    with Cons.prems True show ?thesis by simp
  next
    case False
    then have "R y x" using gt [of y] by simp
    with Cons False show ?thesis
      by (auto simp: set_insert_sorted)
  qed
qed

lemma sorted_wrt_Array_sort:
  assumes tr: "\<And>x y z. R x y \<Longrightarrow> R y z \<Longrightarrow> R x z"
    and le: "\<And>x y. SortCompare c x y \<le> 0 \<Longrightarrow> R x y"
    and gt: "\<And>x y. 0 < SortCompare c x y \<Longrightarrow> R y x"
  shows "sorted_wrt R (Array_sort c xs)"
proof (induction xs)
  case Nil
  then show ?case by simp
next
  case (Cons x xs)
  then show ?case
    using sorted_wrt_insert_sorted [of R c x "Array_sort c xs"] tr le gt
    by simp
qed

lemma filter_insert_sorted:
  assumes "\<And>y. P x \<Longrightarrow> P y \<Longrightarrow> y \<in> set ys \<Longrightarrow> SortCompare c x y \<le> 0 \<or> y = x"
  shows "filter P (insert_sorted c x ys) = filter P (x # ys)"
  using assms
proof (induction ys)
  case Nil
  then show ?case by simp
next
  case (Cons y ys)
  then have IH: "filter P (insert_sorted c x ys) = filter P (x # ys)"
    by simp
  show ?case
  proof (cases "SortCompare c x y \<le> 0")
    case True
    then show ?thesis by simp
  next
    case False
    have "P x \<Longrightarrow> P y \<Longrightarrow> y = x"
      using Cons.prems [of y] False by simp
    with False IH show ?thesis by auto
  qed
qed

lemma filter_Array_sort:
  assumes "\<And>x y. P x \<Longrightarrow> P y \<Longrightarrow> SortCompare c x y \<le> 0 \<or> y = x"
  shows "filter P (Array_sort c xs) = filter P xs"
proof (induction xs)
  case Nil
  then show ?case by simp
next
  case (Cons x xs)
  have "filter P (insert_sorted c x (Array_sort c xs)) = filter P (x # Array_sort c xs)"
    by (rule filter_insert_sorted) (use assms in blast)
  with Cons show ?case by simp
qed

lemma sorted_wrt_unique:
  assumes anti: "\<And>x y. R x y \<Longrightarrow> R y x \<Longrightarrow> x = y"
  shows "sorted_wrt R xs \<Longrightarrow> sorted_wrt R ys \<Longrightarrow> mset xs = mset ys \<Longrightarrow> xs = ys"
proof (induction xs arbitrary: ys)
  case Nil
  then show ?case by simp
next
  case (Cons x xs)
  from Cons.prems(3) obtain y ys' where ys: "ys = y # ys'"
    by (cases ys) auto
  have "x \<in> set ys" using Cons.prems(3) by (metis list.set_intros(1) set_mset_mset)
  then have xy: "x = y \<or> R y x" using Cons.prems(2) ys by auto
  have "y \<in> set (x # xs)" using Cons.prems(3) ys by (metis list.set_intros(1) set_mset_mset)
  then have yx: "y = x \<or> R x y" using Cons.prems(1) by auto
  from xy yx anti have eq: "x = y" by blast
  with Cons.prems ys have "xs = ys'"
    by (intro Cons.IH) auto
  with eq ys show ?case by simp
qed



lemma insert_sorted_cong:
  "(\<And>y. y \<in> set ys \<Longrightarrow> c x y = d x y) \<Longrightarrow> insert_sorted c x ys = insert_sorted d x ys"
  by (induction ys) (auto simp: SortCompare_def)

lemma Array_sort_cong:
  "(\<And>x y. x \<in> set xs \<Longrightarrow> y \<in> set xs \<Longrightarrow> c x y = d x y) \<Longrightarrow>
   Array_sort c xs = Array_sort d xs"
proof (induction xs)
  case Nil
  then show ?case by simp
next
  case (Cons x xs)
  then have "Array_sort c xs = Array_sort d xs" by simp
  moreover have "insert_sorted c x (Array_sort d xs) = insert_sorted d x (Array_sort d xs)"
    by (rule insert_sorted_cong) (simp add: Cons.prems set_Array_sort)
  ultimately show ?case by simp
qed


lemma Array_sort_sorted_stable_on:
  assumes total: "\<And>x y. x \<in> set xs \<Longrightarrow> y \<in> set xs \<Longrightarrow>
      SortCompare c x y \<le> 0 \<or> SortCompare c y x \<le> 0"
    and trans: "\<And>x y z. x \<in> set xs \<Longrightarrow> y \<in> set xs \<Longrightarrow> z \<in> set xs \<Longrightarrow>
      SortCompare c x y \<le> 0 \<Longrightarrow> SortCompare c y z \<le> 0 \<Longrightarrow> SortCompare c x z \<le> 0"
  shows "sorted_wrt (\<lambda>x y. SortCompare c x y \<le> 0) (Array_sort c xs)"
    and "x \<in> set xs \<Longrightarrow>
      filter (\<lambda>y. SortCompare c x y \<le> 0 \<and> SortCompare c y x \<le> 0) (Array_sort c xs) =
      filter (\<lambda>y. SortCompare c x y \<le> 0 \<and> SortCompare c y x \<le> 0) xs"
proof -
  have both: "sorted_wrt (\<lambda>x y. SortCompare c x y \<le> 0) (Array_sort c xs) \<and>
      (x \<in> set xs \<longrightarrow>
        filter (\<lambda>y. SortCompare c x y \<le> 0 \<and> SortCompare c y x \<le> 0) (Array_sort c xs) =
        filter (\<lambda>y. SortCompare c x y \<le> 0 \<and> SortCompare c y x \<le> 0) xs)"
  proof (cases xs)
    case Nil
    then show ?thesis by simp
  next
    case (Cons x0 xs')
    define r where "r x = (if x \<in> set xs then x else x0)" for x
    define d where "d x y = c (r x) (r y)" for x y
    have r_in: "r x \<in> set xs" for x
      by (simp add: r_def Cons)
    have r_id: "x \<in> set xs \<Longrightarrow> r x = x" for x
      by (simp add: r_def)
    have sd: "SortCompare d x y = SortCompare c (r x) (r y)" for x y
      by (simp add: SortCompare_def d_def)
    have dc: "Array_sort d xs = Array_sort c xs"
      by (rule Array_sort_cong) (simp add: d_def r_id)
    have dtotal: "SortCompare d x y \<le> 0 \<or> SortCompare d y x \<le> 0" for x y
      unfolding sd by (rule total [OF r_in r_in])
    have dtrans: "SortCompare d x y \<le> 0 \<Longrightarrow> SortCompare d y z \<le> 0 \<Longrightarrow> SortCompare d x z \<le> 0"
      for x y z
      unfolding sd by (rule trans [OF r_in r_in r_in])
    have "sorted_wrt (\<lambda>x y. SortCompare d x y \<le> 0) (Array_sort d xs)"
    proof (rule sorted_wrt_Array_sort)
      show "SortCompare d y x \<le> 0" if "0 < SortCompare d x y" for x y
        using dtotal [of x y] that by simp
    qed (use dtrans in blast)+
    then have s: "sorted_wrt (\<lambda>x y. SortCompare c x y \<le> 0) (Array_sort c xs)"
      unfolding dc
      by (rule sorted_wrt_mono_rel [rotated]) (simp add: sd r_id set_Array_sort)
    have f: "filter (\<lambda>y. SortCompare c x y \<le> 0 \<and> SortCompare c y x \<le> 0) (Array_sort c xs) =
        filter (\<lambda>y. SortCompare c x y \<le> 0 \<and> SortCompare c y x \<le> 0) xs" if x: "x \<in> set xs"
    proof -
      have "filter (\<lambda>y. SortCompare d x y \<le> 0 \<and> SortCompare d y x \<le> 0) (Array_sort d xs) =
          filter (\<lambda>y. SortCompare d x y \<le> 0 \<and> SortCompare d y x \<le> 0) xs"
        by (rule filter_Array_sort) (use dtrans in blast)
      moreover have "filter (\<lambda>y. SortCompare d x y \<le> 0 \<and> SortCompare d y x \<le> 0)
            (Array_sort c xs) =
          filter (\<lambda>y. SortCompare c x y \<le> 0 \<and> SortCompare c y x \<le> 0) (Array_sort c xs)"
        by (rule filter_cong) (simp_all add: sd r_id x set_Array_sort)
      moreover have "filter (\<lambda>y. SortCompare d x y \<le> 0 \<and> SortCompare d y x \<le> 0) xs =
          filter (\<lambda>y. SortCompare c x y \<le> 0 \<and> SortCompare c y x \<le> 0) xs"
        by (rule filter_cong) (simp_all add: sd r_id x)
      ultimately show ?thesis by (simp add: dc)
    qed
    from s f show ?thesis by blast
  qed
  from both show "sorted_wrt (\<lambda>x y. SortCompare c x y \<le> 0) (Array_sort c xs)" by blast
  from both show "x \<in> set xs \<Longrightarrow>
      filter (\<lambda>y. SortCompare c x y \<le> 0 \<and> SortCompare c y x \<le> 0) (Array_sort c xs) =
      filter (\<lambda>y. SortCompare c x y \<le> 0 \<and> SortCompare c y x \<le> 0) xs" by blast
qed

section \<open>Properties of the comparison function\<close>





lemma compare_tiers:
  "getPriority cfg a \<noteq> getPriority cfg b \<Longrightarrow>
   compare lc cfg state a b = Some (getPriority cfg a - getPriority cfg b)"
  by (simp add: compare_def)

lemma compare_same_tier:
  "getPriority cfg a = getPriority cfg b \<Longrightarrow>
   compare lc cfg state a b =
     num_times
       (if key state = asc ''last_modified'' then num_minus (last_modified a) (last_modified b)
        else if key state = asc ''file_size'' then
          Some (or_zero (size_bytes b) - or_zero (size_bytes a))
        else Some (compareByName lc cfg a b))
       (reverse state)"
  by (simp add: compare_def)

lemma SortCompare_tier_le:
  "SortCompare (compare lc cfg state) a b \<le> 0 \<Longrightarrow> getPriority cfg a \<le> getPriority cfg b"
  by (cases "getPriority cfg a = getPriority cfg b") (simp_all add: compare_tiers SortCompare_def)

lemma compareByName_antisym:
  "useCLocaleSorting cfg \<or> sign_antisymmetric lc \<Longrightarrow>
   sgn (compareByName lc cfg b a) = - sgn (compareByName lc cfg a b)"
  by (auto simp: compareByName_def cLocaleCompare_units compare_units_antisym [of "name a"]
      defaultLocaleCompare_def sign_antisymmetric_def)

lemma sgn_minus_swap: "sgn (y - x) = - sgn (x - y)" for x y :: int
  by (simp add: sgn_if)

lemma sgn_times_reverse: "sgn (v * reverse state) = sgn v * reverse state"
  by (simp add: reverse_def sgn_mult)

lemma compare_tiers_num:
  "getPriority cfg a \<noteq> getPriority cfg b \<Longrightarrow>
   SortCompare (compare lc cfg state) a b = getPriority cfg a - getPriority cfg b"
  by (simp add: compare_tiers SortCompare_def)

lemma compare_last_modified:
  "getPriority cfg a = getPriority cfg b \<Longrightarrow> key state = asc ''last_modified'' \<Longrightarrow>
   SortCompare (compare lc cfg state) a b =
     (case (last_modified a, last_modified b) of
        (Some u, Some v) \<Rightarrow> (u - v) * reverse state
      | _ \<Rightarrow> 0)"
  by (simp add: compare_same_tier SortCompare_def num_times_def num_minus_def
      split: option.splits)

lemma file_size_not_last_modified: "asc ''file_size'' \<noteq> asc ''last_modified''"
  by (simp add: asc_def)

lemma compare_file_size:
  "getPriority cfg a = getPriority cfg b \<Longrightarrow> key state = asc ''file_size'' \<Longrightarrow>
   compare lc cfg state a b =
     Some ((or_zero (size_bytes b) - or_zero (size_bytes a)) * reverse state)"
  using file_size_not_last_modified
  by (simp add: compare_same_tier num_times_def)

lemma compare_name:
  "getPriority cfg a = getPriority cfg b \<Longrightarrow> key state \<noteq> asc ''last_modified'' \<Longrightarrow>
   key state \<noteq> asc ''file_size'' \<Longrightarrow>
   compare lc cfg state a b = Some (compareByName lc cfg a b * reverse state)"
  by (simp add: compare_same_tier num_times_def)

lemma SortCompare_antisym:
  assumes "useCLocaleSorting cfg \<or> sign_antisymmetric lc"
  shows "sgn (SortCompare (compare lc cfg state) b a) = - sgn (SortCompare (compare lc cfg state) a b)"
proof (cases "getPriority cfg a = getPriority cfg b")
  case False
  then show ?thesis
    using compare_tiers_num [of cfg a b lc state] compare_tiers_num [of cfg b a lc state]
    by (simp add: sgn_minus_swap [of "getPriority cfg a"])
next
  case True
  consider (time) "key state = asc ''last_modified''"
    | (size) "key state = asc ''file_size''"
    | (name) "key state \<noteq> asc ''last_modified''" "key state \<noteq> asc ''file_size''"
    by blast
  then show ?thesis
  proof cases
    case time
    show ?thesis
    proof (cases "last_modified a")
      case None
      with True time show ?thesis
        by (simp add: compare_last_modified split: option.splits)
    next
      case ta: (Some u)
      show ?thesis
      proof (cases "last_modified b")
        case None
        with True time ta show ?thesis
          by (simp add: compare_last_modified)
      next
        case tb: (Some v)
        with True time ta show ?thesis
          by (simp add: compare_last_modified sgn_times_reverse sgn_minus_swap [of u v])
      qed
    qed
  next
    case size
    show ?thesis
      using True size
      by (simp add: compare_file_size SortCompare_def sgn_times_reverse
          sgn_minus_swap [of "or_zero (size_bytes a)"])
  next
    case name
    have "sgn (compareByName lc cfg b a) = - sgn (compareByName lc cfg a b)"
      using assms by (rule compareByName_antisym)
    then show ?thesis
      using True name
      by (simp add: compare_name SortCompare_def sgn_times_reverse)
  qed
qed

lemma SortCompare_total:
  assumes "useCLocaleSorting cfg \<or> sign_antisymmetric lc"
    and "0 < SortCompare (compare lc cfg state) a b"
  shows "SortCompare (compare lc cfg state) b a \<le> 0"
  using SortCompare_antisym [OF assms(1), of state b a] assms(2)
  by (simp add: sgn_if split: if_splits)

lemma SortCompare_eq_0_sym:
  assumes "useCLocaleSorting cfg \<or> sign_antisymmetric lc"
    and "SortCompare (compare lc cfg state) a b = 0"
  shows "SortCompare (compare lc cfg state) b a = 0"
  using SortCompare_antisym [OF assms(1), of state b a] assms(2)
  by (simp add: sgn_if split: if_splits)

lemma getPriority_same_type: "type x = type y \<Longrightarrow> getPriority cfg x = getPriority cfg y"
  by (simp add: getPriority_def)

lemma name_not_keys: "asc ''name'' \<noteq> asc ''last_modified''" "asc ''name'' \<noteq> asc ''file_size''"
  by (simp_all add: asc_def)

lemma sorted_names_c_locale:
  assumes c: "useCLocaleSorting cfg"
    and k: "key state \<noteq> asc ''last_modified''" "key state \<noteq> asc ''file_size''"
    and d: "direction state = Ascending"
  shows "sorted_wrt (\<lambda>x y. getPriority cfg x < getPriority cfg y \<or>
      getPriority cfg x = getPriority cfg y \<and> compare_units (name x) (name y) \<le> 0)
    (sortItems lc cfg items state)"
  unfolding sortItems_def
proof (rule sorted_wrt_Array_sort)
  fix x y z
  assume "getPriority cfg x < getPriority cfg y \<or>
      getPriority cfg x = getPriority cfg y \<and> compare_units (name x) (name y) \<le> 0"
    and "getPriority cfg y < getPriority cfg z \<or>
      getPriority cfg y = getPriority cfg z \<and> compare_units (name y) (name z) \<le> 0"
  then show "getPriority cfg x < getPriority cfg z \<or>
      getPriority cfg x = getPriority cfg z \<and> compare_units (name x) (name z) \<le> 0"
    using compare_units_trans [of "name x" "name y" "name z"] by auto
next
  fix x y
  assume le: "SortCompare (compare lc cfg state) x y \<le> 0"
  show "getPriority cfg x < getPriority cfg y \<or>
      getPriority cfg x = getPriority cfg y \<and> compare_units (name x) (name y) \<le> 0"
  proof (cases "getPriority cfg x = getPriority cfg y")
    case True
    with le c k d show ?thesis
      by (simp add: compare_name SortCompare_def compareByName_def cLocaleCompare_units reverse_def)
  next
    case False
    with le show ?thesis by (simp add: compare_tiers_num)
  qed
next
  fix x y
  assume gt: "0 < SortCompare (compare lc cfg state) x y"
  show "getPriority cfg y < getPriority cfg x \<or>
      getPriority cfg y = getPriority cfg x \<and> compare_units (name y) (name x) \<le> 0"
  proof (cases "getPriority cfg x = getPriority cfg y")
    case True
    with gt c k d show ?thesis
      using compare_units_antisym [of "name x" "name y"]
      by (simp add: compare_name SortCompare_def compareByName_def cLocaleCompare_units reverse_def)
  next
    case False
    with gt show ?thesis by (simp add: compare_tiers_num)
  qed
qed

lemma sorted_file_size_ascending:
  assumes k: "key state = asc ''file_size''" and d: "direction state = Ascending"
  shows "sorted_wrt (\<lambda>x y. getPriority cfg x < getPriority cfg y \<or>
      getPriority cfg x = getPriority cfg y \<and> or_zero (size_bytes y) \<le> or_zero (size_bytes x))
    (sortItems lc cfg items state)"
  unfolding sortItems_def
proof (rule sorted_wrt_Array_sort)
  fix x y z
  assume "getPriority cfg x < getPriority cfg y \<or>
      getPriority cfg x = getPriority cfg y \<and> or_zero (size_bytes y) \<le> or_zero (size_bytes x)"
    and "getPriority cfg y < getPriority cfg z \<or>
      getPriority cfg y = getPriority cfg z \<and> or_zero (size_bytes z) \<le> or_zero (size_bytes y)"
  then show "getPriority cfg x < getPriority cfg z \<or>
      getPriority cfg x = getPriority cfg z \<and> or_zero (size_bytes z) \<le> or_zero (size_bytes x)"
    by auto
next
  fix x y
  assume le: "SortCompare (compare lc cfg state) x y \<le> 0"
  show "getPriority cfg x < getPriority cfg y \<or>
      getPriority cfg x = getPriority cfg y \<and> or_zero (size_bytes y) \<le> or_zero (size_bytes x)"
  proof (cases "getPriority cfg x = getPriority cfg y")
    case True
    with le k d show ?thesis
      by (simp add: compare_file_size SortCompare_def reverse_def)
  next
    case False
    with le show ?thesis by (simp add: compare_tiers_num)
  qed
next
  fix x y
  assume gt: "0 < SortCompare (compare lc cfg state) x y"
  show "getPriority cfg y < getPriority cfg x \<or>
      getPriority cfg y = getPriority cfg x \<and> or_zero (size_bytes x) \<le> or_zero (size_bytes y)"
  proof (cases "getPriority cfg x = getPriority cfg y")
    case True
    with gt k d show ?thesis
      by (simp add: compare_file_size SortCompare_def reverse_def)
  next
    case False
    with gt show ?thesis by (simp add: compare_tiers_num)
  qed
qed

lemma consistent_sign_antisymmetric: "consistent_comparator lc \<Longrightarrow> sign_antisymmetric lc"
  unfolding consistent_comparator_def sign_antisymmetric_def by blast

lemma consistent_ge_trans:
  assumes "consistent_comparator lc" "0 \<le> lc a b" "0 \<le> lc b c"
  shows "0 \<le> lc a c"
proof -
  from assms(1) have anti: "\<And>x y. sgn (lc y x) = - sgn (lc x y)"
    and tr: "\<And>x y z. lc x y \<le> 0 \<Longrightarrow> lc y z \<le> 0 \<Longrightarrow> lc x z \<le> 0"
    unfolding consistent_comparator_def by blast+
  from anti [of a b] assms(2) have "lc b a \<le> 0" by (simp add: sgn_if split: if_splits)
  moreover from anti [of b c] assms(3) have "lc c b \<le> 0" by (simp add: sgn_if split: if_splits)
  ultimately have "lc c a \<le> 0" by (rule tr [rotated])
  with anti [of c a] show ?thesis by (simp add: sgn_if split: if_splits)
qed

lemma compare_units_ge_trans:
  "0 \<le> compare_units a b \<Longrightarrow> 0 \<le> compare_units b c \<Longrightarrow> 0 \<le> compare_units a c"
  using compare_units_trans [of c b a] compare_units_antisym [of a b]
    compare_units_antisym [of b c] compare_units_antisym [of a c]
  by simp

lemma compareByName_trans:
  assumes "useCLocaleSorting cfg \<or> consistent_comparator lc"
  shows "compareByName lc cfg x y \<le> 0 \<Longrightarrow> compareByName lc cfg y z \<le> 0 \<Longrightarrow>
      compareByName lc cfg x z \<le> 0"
    and "0 \<le> compareByName lc cfg x y \<Longrightarrow> 0 \<le> compareByName lc cfg y z \<Longrightarrow>
      0 \<le> compareByName lc cfg x z"
proof -
  show "compareByName lc cfg x y \<le> 0 \<Longrightarrow> compareByName lc cfg y z \<le> 0 \<Longrightarrow>
      compareByName lc cfg x z \<le> 0"
  proof (cases "useCLocaleSorting cfg")
    case True
    then show "compareByName lc cfg x y \<le> 0 \<Longrightarrow> compareByName lc cfg y z \<le> 0 \<Longrightarrow>
      compareByName lc cfg x z \<le> 0"
      using compare_units_trans [of "name x" "name y" "name z"]
      by (simp add: compareByName_def cLocaleCompare_units)
  next
    case False
    with assms have "\<And>a b c. lc a b \<le> 0 \<Longrightarrow> lc b c \<le> 0 \<Longrightarrow> lc a c \<le> 0"
      unfolding consistent_comparator_def by blast
    with False show "compareByName lc cfg x y \<le> 0 \<Longrightarrow> compareByName lc cfg y z \<le> 0 \<Longrightarrow>
      compareByName lc cfg x z \<le> 0"
      by (simp add: compareByName_def defaultLocaleCompare_def)
  qed
  show "0 \<le> compareByName lc cfg x y \<Longrightarrow> 0 \<le> compareByName lc cfg y z \<Longrightarrow>
      0 \<le> compareByName lc cfg x z"
  proof (cases "useCLocaleSorting cfg")
    case True
    then show "0 \<le> compareByName lc cfg x y \<Longrightarrow> 0 \<le> compareByName lc cfg y z \<Longrightarrow>
      0 \<le> compareByName lc cfg x z"
      using compare_units_ge_trans [of "name x" "name y" "name z"]
      by (simp add: compareByName_def cLocaleCompare_units)
  next
    case False
    with assms have "consistent_comparator lc" by simp
    with False show "0 \<le> compareByName lc cfg x y \<Longrightarrow> 0 \<le> compareByName lc cfg y z \<Longrightarrow>
      0 \<le> compareByName lc cfg x z"
      using consistent_ge_trans [of lc "name x" "name y" "name z"]
      by (simp add: compareByName_def defaultLocaleCompare_def)
  qed
qed

lemma reverse_cases: "reverse state = 1 \<or> reverse state = - 1"
  by (simp add: reverse_def)

lemma SortCompare_trans:
  assumes c: "useCLocaleSorting cfg \<or> consistent_comparator lc"
    and t: "key state = asc ''last_modified'' \<longrightarrow>
      last_modified x \<noteq> None \<and> last_modified y \<noteq> None \<and> last_modified z \<noteq> None"
    and xy: "SortCompare (compare lc cfg state) x y \<le> 0"
    and yz: "SortCompare (compare lc cfg state) y z \<le> 0"
  shows "SortCompare (compare lc cfg state) x z \<le> 0"
proof -
  from xy yz have p: "getPriority cfg x \<le> getPriority cfg y" "getPriority cfg y \<le> getPriority cfg z"
    by (auto dest: SortCompare_tier_le)
  show ?thesis
  proof (cases "getPriority cfg x = getPriority cfg z")
    case False
    with p have "getPriority cfg x < getPriority cfg z" by simp
    then show ?thesis by (simp add: compare_tiers_num)
  next
    case True
    with p have same: "getPriority cfg x = getPriority cfg y" "getPriority cfg y = getPriority cfg z"
      by simp_all
    consider (time) "key state = asc ''last_modified''"
      | (size) "key state = asc ''file_size''"
      | (name) "key state \<noteq> asc ''last_modified''" "key state \<noteq> asc ''file_size''"
      by blast
    then show ?thesis
    proof cases
      case time
      with t obtain tx ty tz where ts: "last_modified x = Some tx" "last_modified y = Some ty"
          "last_modified z = Some tz"
        by auto
      from xy yz same True time ts reverse_cases [of state] show ?thesis
        by (auto simp: compare_last_modified)
    next
      case size
      from xy yz same True size reverse_cases [of state] show ?thesis
        by (auto simp: compare_file_size SortCompare_def)
    next
      case name
      from xy yz same True name reverse_cases [of state] show ?thesis
        using compareByName_trans [OF c, of x y z]
        by (auto simp: compare_name SortCompare_def)
    qed
  qed
qed

text \<open>
  Where the timestamps parse and the host's \<open>localeCompare\<close> is consistent, the result of
  \<open>sortItems\<close> is sorted under the comparison function and stable, and no other
  permutation of the items is: it is what every conforming engine returns.
\<close>

lemma sortItems_sorted_stable:
  assumes tp: "timestamps_parse state items"
    and c: "useCLocaleSorting cfg \<or> consistent_comparator lc"
  shows "sorted_wrt (\<lambda>x y. SortCompare (compare lc cfg state) x y \<le> 0)
      (sortItems lc cfg items state)"
    and "x \<in> set items \<Longrightarrow>
      filter (\<lambda>y. SortCompare (compare lc cfg state) x y \<le> 0 \<and>
          SortCompare (compare lc cfg state) y x \<le> 0) (sortItems lc cfg items state) =
      filter (\<lambda>y. SortCompare (compare lc cfg state) x y \<le> 0 \<and>
          SortCompare (compare lc cfg state) y x \<le> 0) items"
proof -
  have anti: "useCLocaleSorting cfg \<or> sign_antisymmetric lc"
    using c consistent_sign_antisymmetric by blast
  have total: "SortCompare (compare lc cfg state) x y \<le> 0 \<or>
      SortCompare (compare lc cfg state) y x \<le> 0" for x y
    using SortCompare_total [OF anti, of state x y] by linarith
  have trans: "SortCompare (compare lc cfg state) x z \<le> 0"
    if "x \<in> set items" "y \<in> set items" "z \<in> set items"
      "SortCompare (compare lc cfg state) x y \<le> 0" "SortCompare (compare lc cfg state) y z \<le> 0"
    for x y z
  proof (rule SortCompare_trans [OF c _ that(4,5)])
    show "key state = asc ''last_modified'' \<longrightarrow>
        last_modified x \<noteq> None \<and> last_modified y \<noteq> None \<and> last_modified z \<noteq> None"
      using tp that(1-3) by (simp add: timestamps_parse_def)
  qed
  show "sorted_wrt (\<lambda>x y. SortCompare (compare lc cfg state) x y \<le> 0)
      (sortItems lc cfg items state)"
    unfolding sortItems_def
    by (rule Array_sort_sorted_stable_on(1)) (use total trans in blast)+
  show "x \<in> set items \<Longrightarrow>
      filter (\<lambda>y. SortCompare (compare lc cfg state) x y \<le> 0 \<and>
          SortCompare (compare lc cfg state) y x \<le> 0) (sortItems lc cfg items state) =
      filter (\<lambda>y. SortCompare (compare lc cfg state) x y \<le> 0 \<and>
          SortCompare (compare lc cfg state) y x \<le> 0) items"
    unfolding sortItems_def
    by (rule Array_sort_sorted_stable_on(2)) (use total trans in blast)+
qed


lemma set_sortItems: "set (sortItems lc cfg items state) = set items"
  by (simp add: sortItems_def set_Array_sort)



section \<open>Evaluation on concrete listings\<close>

lemmas eval_simps = sortItems_def compare_def getPriority_def asc_def SortCompare_def
  num_times_def num_minus_def reverse_def compareByName_def cLocaleCompare_units or_zero_def
  Let_def file_named_def dir_named_def notebook_named_def name_descending_def
  name_ascending_def mixed_items_def

lemma mixed_sorted:
  "sortItems lc initial_config mixed_items name_descending =
     [dir_named (asc ''src''), dir_named (asc ''docs''), file_named (asc ''b.txt''),
      notebook_named (asc ''a.ipynb'')]"
  by (simp add: eval_simps initial_config_def)

lemma example_names_sorted: "sorted_wrt (\<lambda>a b. compare_units a b \<le> 0) example_names"
  by (simp add: example_names_def asc_def)

lemma example_order:
  assumes same: "\<forall>e\<in>set items. type e = t"
    and names: "mset (map name items) = mset example_names"
  shows "map name (sortItems lc \<lparr>sortNotebooksFirst = nb, useCLocaleSorting = True\<rparr> items name_ascending)
    = example_names"
proof -
  define cfg where "cfg = \<lparr>sortNotebooksFirst = nb, useCLocaleSorting = True\<rparr>"
  define out where "out = sortItems lc cfg items name_ascending"
  have c: "useCLocaleSorting cfg" by (simp add: cfg_def)
  have set_out: "set out = set items"
    by (simp add: out_def sortItems_def set_Array_sort)
  have tier: "getPriority cfg x = getPriority cfg y" if "x \<in> set out" "y \<in> set out" for x y
  proof -
    from that same have "type x = t" "type y = t" unfolding set_out by simp_all
    then have "type x = type y" by simp
    then show ?thesis by (rule getPriority_same_type)
  qed
  have "sorted_wrt (\<lambda>x y. getPriority cfg x < getPriority cfg y \<or>
      getPriority cfg x = getPriority cfg y \<and> compare_units (name x) (name y) \<le> 0) out"
    unfolding out_def
    by (rule sorted_names_c_locale [OF c]) (simp_all add: name_ascending_def name_not_keys)
  then have "sorted_wrt (\<lambda>x y. compare_units (name x) (name y) \<le> 0) out"
  proof (rule sorted_wrt_mono_rel [rotated])
    fix x y
    assume "x \<in> set out" "y \<in> set out"
      and "getPriority cfg x < getPriority cfg y \<or>
        getPriority cfg x = getPriority cfg y \<and> compare_units (name x) (name y) \<le> 0"
    then show "compare_units (name x) (name y) \<le> 0"
      using tier [of x y] by linarith
  qed
  then have s1: "sorted_wrt (\<lambda>a b. compare_units a b \<le> 0) (map name out)"
    by (simp add: sorted_wrt_map)
  have "mset out = mset items"
    by (simp add: out_def sortItems_def mset_Array_sort)
  then have "mset (map name out) = mset (map name items)"
    by simp
  with names have m: "mset (map name out) = mset example_names"
    by simp
  have "map name out = example_names"
  proof (rule sorted_wrt_unique [OF _ s1 example_names_sorted m])
    fix x y :: jsstring
    assume "compare_units x y \<le> 0" "compare_units y x \<le> 0"
    then show "x = y"
      using compare_units_antisym [of x y] compare_units_eq_0 [of x y] by simp
  qed
  then show ?thesis by (simp add: out_def cfg_def)
qed

lemma scrambled_names: "mset (map name scrambled_items) = mset example_names"
  by (simp add: scrambled_items_def example_names_def file_named_def)

lemma scrambled_types: "\<forall>e\<in>set scrambled_items. type e = asc ''file''"
  by (simp add: scrambled_items_def file_named_def)

lemma scrambled_sorted:
  "sortItems lc initial_config scrambled_items name_ascending =
     map (\<lambda>n. file_named (asc n)) [''.hidden'', ''.profile'', ''123file'', ''ABC'', ''Makefile'',
       ''README'', ''_config'', ''abc'', ''readme'', ''zebra'']"
  by (simp add: eval_simps initial_config_def scrambled_items_def)

lemma sized_sorted:
  "sortItems lc initial_config sized_items size_ascending =
     [sized_file (asc ''big'') (Some 700), sized_file (asc ''small'') (Some 5),
      sized_file (asc ''none'') None]"
  by (simp add: eval_simps initial_config_def sized_items_def sized_file_def size_ascending_def)


lemma case_equal:
  "SortCompare (compare caseless_compare locale_config name_ascending)
     (file_named (asc ''abc'')) (file_named (asc ''ABC'')) = 0"
  by (simp add: eval_simps locale_config_def caseless_compare_def
      defaultLocaleCompare_def fold_case_def)






lemma caseless_consistent: "consistent_comparator caseless_compare"
  unfolding consistent_comparator_def caseless_compare_def cLocaleCompare_units
proof (intro conjI allI impI)
  fix a b :: jsstring
  show "sgn (compare_units (map fold_case b) (map fold_case a)) =
      - sgn (compare_units (map fold_case a) (map fold_case b))"
    by (subst compare_units_antisym) simp
next
  fix a b c :: jsstring
  assume "compare_units (map fold_case a) (map fold_case b) \<le> 0 \<and>
      compare_units (map fold_case b) (map fold_case c) \<le> 0"
  then show "compare_units (map fold_case a) (map fold_case c) \<le> 0"
    using compare_units_trans by blast
qed

lemma case_parse: "timestamps_parse state case_items"
  by (simp add: timestamps_parse_def case_items_def file_named_def)

text \<open>
  What \<open>cLocaleCompare\<close> computes: the difference of the first differing code units, or
  of the lengths when one string is a prefix of the other. Without surrogates that is
  the order of the code points, and the example of the specification comes out in the
  order it gives, from any order of the input.
\<close>

lemma cLocaleCompare_code_units:
  "(i < length a \<and> i < length b \<and> take i a = take i b \<and> a ! i \<noteq> b ! i \<longrightarrow>
      cLocaleCompare a b = uint (a ! i) - uint (b ! i) \<and>
      (cLocaleCompare a b < 0 \<longleftrightarrow> a ! i < b ! i)) \<and>
   cLocaleCompare a (a @ c) = - int (length c) \<and>
   ((\<forall>u\<in>set a \<union> set b. \<not> is_high_surrogate u) \<longrightarrow>
      cLocaleCompare a b = spec_codePointCompare a b) \<and>
   (\<forall>m n. m < n \<and>
      n < length (sortItems lc \<lparr>sortNotebooksFirst = nb, useCLocaleSorting = True\<rparr> xs
        name_ascending) \<and>
      type (sortItems lc \<lparr>sortNotebooksFirst = nb, useCLocaleSorting = True\<rparr> xs
        name_ascending ! m) =
      type (sortItems lc \<lparr>sortNotebooksFirst = nb, useCLocaleSorting = True\<rparr> xs
        name_ascending ! n) \<longrightarrow>
      cLocaleCompare
        (name (sortItems lc \<lparr>sortNotebooksFirst = nb, useCLocaleSorting = True\<rparr> xs
          name_ascending ! m))
        (name (sortItems lc \<lparr>sortNotebooksFirst = nb, useCLocaleSorting = True\<rparr> xs
          name_ascending ! n)) \<le> 0) \<and>
   ((\<forall>e\<in>set items. type e = t) \<and> mset (map name items) = mset example_names \<longrightarrow>
      map name (sortItems lc \<lparr>sortNotebooksFirst = nb, useCLocaleSorting = True\<rparr> items
        name_ascending) = example_names)"
proof (intro conjI impI allI)
  assume h: "i < length a \<and> i < length b \<and> take i a = take i b \<and> a ! i \<noteq> b ! i"
  then show v: "cLocaleCompare a b = uint (a ! i) - uint (b ! i)"
    by (simp add: cLocaleCompare_units compare_units_first_diff)
  show "cLocaleCompare a b < 0 \<longleftrightarrow> a ! i < b ! i"
    by (simp add: v word_less_def)
next
  show "cLocaleCompare a (a @ c) = - int (length c)"
    by (simp add: cLocaleCompare_units compare_units_prefix)
next
  assume "\<forall>u\<in>set a \<union> set b. \<not> is_high_surrogate u"
  then have "code_points a = map uint a" "code_points b = map uint b"
    by (simp_all add: code_points_no_surrogates)
  then show "cLocaleCompare a b = spec_codePointCompare a b"
    by (simp add: cLocaleCompare_units spec_codePointCompare_def compare_points_units)
next
  fix m n
  define cfg where "cfg = \<lparr>sortNotebooksFirst = nb, useCLocaleSorting = True\<rparr>"
  define out where "out = sortItems lc cfg xs name_ascending"
  assume "m < n \<and>
      n < length (sortItems lc \<lparr>sortNotebooksFirst = nb, useCLocaleSorting = True\<rparr> xs
        name_ascending) \<and>
      type (sortItems lc \<lparr>sortNotebooksFirst = nb, useCLocaleSorting = True\<rparr> xs
        name_ascending ! m) =
      type (sortItems lc \<lparr>sortNotebooksFirst = nb, useCLocaleSorting = True\<rparr> xs
        name_ascending ! n)"
  then have mn: "m < n" "n < length out" and ty: "type (out ! m) = type (out ! n)"
    by (simp_all add: out_def cfg_def)
  have srt: "sorted_wrt (\<lambda>x y. getPriority cfg x < getPriority cfg y \<or>
      getPriority cfg x = getPriority cfg y \<and> compare_units (name x) (name y) \<le> 0) out"
    unfolding out_def
    by (rule sorted_names_c_locale) (simp_all add: cfg_def name_ascending_def name_not_keys)
  have "getPriority cfg (out ! m) < getPriority cfg (out ! n) \<or>
      getPriority cfg (out ! m) = getPriority cfg (out ! n) \<and>
      compare_units (name (out ! m)) (name (out ! n)) \<le> 0"
    by (rule sorted_wrt_nth_less [OF srt mn])
  with getPriority_same_type [OF ty, of cfg]
  have "cLocaleCompare (name (out ! m)) (name (out ! n)) \<le> 0"
    by (simp add: cLocaleCompare_units)
  then show "cLocaleCompare
        (name (sortItems lc \<lparr>sortNotebooksFirst = nb, useCLocaleSorting = True\<rparr> xs
          name_ascending ! m))
        (name (sortItems lc \<lparr>sortNotebooksFirst = nb, useCLocaleSorting = True\<rparr> xs
          name_ascending ! n)) \<le> 0"
    by (simp add: out_def cfg_def)
next
  assume h: "(\<forall>e\<in>set items. type e = t) \<and> mset (map name items) = mset example_names"
  show "map name (sortItems lc \<lparr>sortNotebooksFirst = nb, useCLocaleSorting = True\<rparr> items
        name_ascending) = example_names"
    by (rule example_order [of items t]) (use h in blast)+
qed

text \<open>
  V8's sort on a list with an unparseable timestamp, and what the insertion sort gives
  there; on the example of the specification, where the comparison function is
  consistent, the two agree.
\<close>

lemma run_undated:
  "CountAndMakeRun (compare lc initial_config time_ascending) undated_items =
     (2, [file_at (asc ''f1'') (Some 10), file_at (asc ''f0'') (Some 30), file_at (asc ''f2'') None,
       file_at (asc ''f3'') (Some 20)])"
  by (simp add: CountAndMakeRun_def eval_simps undated_items_def file_at_def time_ascending_def
      initial_config_def)

lemma insertions_undated:
  "BinaryInsertionSort (compare lc initial_config time_ascending) 
     [file_at (asc ''f1'') (Some 10), file_at (asc ''f0'') (Some 30), file_at (asc ''f2'') None,
       file_at (asc ''f3'') (Some 20)] 0 2 4 = 
     [file_at (asc ''f1'') (Some 10), file_at (asc ''f3'') (Some 20),
       file_at (asc ''f0'') (Some 30), file_at (asc ''f2'') None]"
  by (simp add: BinaryInsertionSort_def BinaryInsertionSort_loop.simps move_pivot_def binary_search.simps eval_simps file_at_def time_ascending_def
      initial_config_def)

lemma v8_undated:
  "v8_sort (compare lc initial_config time_ascending) undated_items =
     Some [file_at (asc ''f1'') (Some 10), file_at (asc ''f3'') (Some 20),
       file_at (asc ''f0'') (Some 30), file_at (asc ''f2'') None]"
proof -
  have len: "length undated_items = 4"
    by (simp add: undated_items_def)
  show ?thesis
    by (simp add: v8_sort_def len run_undated insertions_undated)
qed

lemma model_undated:
  "sortItems lc initial_config undated_items time_ascending =
     [file_at (asc ''f1'') (Some 10), file_at (asc ''f0'') (Some 30), file_at (asc ''f2'') None,
      file_at (asc ''f3'') (Some 20)]"
  by (simp add: eval_simps undated_items_def file_at_def time_ascending_def initial_config_def)

lemma run_scrambled:
  "CountAndMakeRun (compare lc initial_config name_ascending) scrambled_items =
     (2, [file_named (asc ''ABC''), file_named (asc ''readme''), file_named (asc ''zebra''), file_named (asc ''.profile''), file_named (asc ''_config''), file_named (asc ''123file''), file_named (asc ''Makefile''), file_named (asc ''abc''), file_named (asc ''.hidden''), file_named (asc ''README'')])"
  by (simp add: CountAndMakeRun_def eval_simps scrambled_items_def initial_config_def)

lemma insertions_scrambled:
  "BinaryInsertionSort (compare lc initial_config name_ascending)
     [file_named (asc ''ABC''), file_named (asc ''readme''), file_named (asc ''zebra''), file_named (asc ''.profile''), file_named (asc ''_config''), file_named (asc ''123file''), file_named (asc ''Makefile''), file_named (asc ''abc''), file_named (asc ''.hidden''), file_named (asc ''README'')] 0 2 10 =
     [file_named (asc ''.hidden''), file_named (asc ''.profile''), file_named (asc ''123file''), file_named (asc ''ABC''), file_named (asc ''Makefile''), file_named (asc ''README''), file_named (asc ''_config''), file_named (asc ''abc''), file_named (asc ''readme''), file_named (asc ''zebra'')]"
  by (simp add: BinaryInsertionSort_def BinaryInsertionSort_loop.simps move_pivot_def
      binary_search.simps eval_simps initial_config_def)

lemma v8_scrambled:
  "v8_sort (compare lc initial_config name_ascending) scrambled_items =
     Some (sortItems lc initial_config scrambled_items name_ascending)"
proof -
  have len: "length scrambled_items = 10"
    by (simp add: scrambled_items_def)
  show ?thesis
    by (simp add: v8_sort_def len run_scrambled insertions_scrambled scrambled_sorted)
qed

section \<open>The claims\<close>

text \<open>
  C1. In C-locale mode the name comparator is to order two strings by their first
  differing code point, a prefix before the longer string; the code's own documentation
  says the same (\<open>LC_COLLATE=C\<close>, the order of \<open>ls\<close>: the byte order of the UTF-8
  names, which is the order of the code points). The code compares UTF-16 code units,
  and the two orders differ where a surrogate pair meets a code unit above the surrogate
  range. U+FF5E is the single unit \<open>0xFF5E\<close>, U+1F600 is the pair \<open>0xD83D 0xDE00\<close>: by
  code point the first string is the smaller, but \<open>cLocaleCompare\<close> returns
  \<open>0xFF5E - 0xD83D = 10017\<close>, and \<open>sortItems\<close> puts the name U+1F600 first.
\<close>

theorem cLocaleCompare_surrogate_pair:
  "code_points [0xFF5E] = [0xFF5E] \<and>
   code_points [0xD83D, 0xDE00] = [0x1F600] \<and>
   spec_codePointCompare [0xFF5E] [0xD83D, 0xDE00] < 0 \<and>
   cLocaleCompare [0xFF5E] [0xD83D, 0xDE00] = 10017 \<and>
   map name (sortItems (\<lambda>a b. 0) initial_config
       [file_named [0xFF5E], file_named [0xD83D, 0xDE00]] name_ascending) =
     [[0xD83D, 0xDE00], [0xFF5E]]"
  by (simp add: spec_codePointCompare_def is_high_surrogate_def is_low_surrogate_def
      cLocaleCompare_units eval_simps initial_config_def)



text \<open>
  C3. With key \<open>file_size\<close>, for two entries of one priority tier the comparison
  function returns \<open>(b.size ?? 0) - (a.size ?? 0)\<close>, an absent size counting as 0,
  times the direction multiplier (\<open>1\<close> ascending, \<open>- 1\<close> descending). So with direction
  ascending, within a tier of the result an entry never comes before a larger one.
\<close>

theorem file_size_comparator:
  "(key state = asc ''file_size'' \<and> getPriority cfg a = getPriority cfg b \<longrightarrow>
      compare lc cfg state a b =
        Some ((or_zero (size_bytes b) - or_zero (size_bytes a)) * reverse state) \<and>
      reverse state = (if direction state = Descending then - 1 else 1)) \<and>
   or_zero None = 0 \<and> or_zero (Some v) = v \<and>
   (key state = asc ''file_size'' \<and> direction state = Ascending \<longrightarrow>
      (\<forall>i j. i < j \<and> j < length (sortItems lc cfg items state) \<and>
         getPriority cfg (sortItems lc cfg items state ! i) =
           getPriority cfg (sortItems lc cfg items state ! j) \<longrightarrow>
         or_zero (size_bytes (sortItems lc cfg items state ! j)) \<le>
           or_zero (size_bytes (sortItems lc cfg items state ! i))))"
proof (intro conjI allI impI)
  assume "key state = asc ''file_size'' \<and> getPriority cfg a = getPriority cfg b"
  then show "compare lc cfg state a b =
      Some ((or_zero (size_bytes b) - or_zero (size_bytes a)) * reverse state)"
    by (simp add: compare_file_size)
next
  show "reverse state = (if direction state = Descending then - 1 else 1)"
    by (simp add: reverse_def)
next
  show "or_zero None = 0" "or_zero (Some v) = v"
    by (simp_all add: or_zero_def)
next
  fix i j
  let ?out = "sortItems lc cfg items state"
  assume kd: "key state = asc ''file_size'' \<and> direction state = Ascending"
    and h: "i < j \<and> j < length ?out \<and> getPriority cfg (?out ! i) = getPriority cfg (?out ! j)"
  from kd have srt: "sorted_wrt (\<lambda>x y. getPriority cfg x < getPriority cfg y \<or>
      getPriority cfg x = getPriority cfg y \<and> or_zero (size_bytes y) \<le> or_zero (size_bytes x))
    ?out"
    by (simp add: sorted_file_size_ascending)
  from h have ij: "i < j" "j < length ?out" by simp_all
  have "getPriority cfg (?out ! i) < getPriority cfg (?out ! j) \<or>
      getPriority cfg (?out ! i) = getPriority cfg (?out ! j) \<and>
      or_zero (size_bytes (?out ! j)) \<le> or_zero (size_bytes (?out ! i))"
    by (rule sorted_wrt_nth_less [OF srt ij])
  with h show "or_zero (size_bytes (?out ! j)) \<le> or_zero (size_bytes (?out ! i))"
    by simp
qed

theorem file_size_comparator_witness:
  "compare (\<lambda>a b. 0) initial_config size_ascending
      (sized_file (asc ''small'') (Some 5)) (sized_file (asc ''none'') None) = Some (- 5) \<and>
   sortItems (\<lambda>a b. 0) initial_config sized_items size_ascending =
     [sized_file (asc ''big'') (Some 700), sized_file (asc ''small'') (Some 5),
      sized_file (asc ''none'') None] \<and>
   or_zero (size_bytes (sortItems (\<lambda>a b. 0) initial_config sized_items size_ascending ! 2)) \<le>
     or_zero (size_bytes (sortItems (\<lambda>a b. 0) initial_config sized_items size_ascending ! 0))"
  using file_size_comparator [of size_ascending initial_config
      "sized_file (asc ''small'') (Some 5)" "sized_file (asc ''none'') None" "\<lambda>a b. 0" 0 sized_items]
  by (simp add: sized_sorted)
    (simp add: size_ascending_def sized_file_def getPriority_def or_zero_def reverse_def)



text \<open>
  C5 (as amended). For every entry list whose timestamps parse, \<open>sortItems\<close> is stable:
  two entries \<open>a\<close> and \<open>b\<close> that compare equal under the comparison function (tier, key
  and direction) keep their relative order: the subsequence of the occurrences of \<open>a\<close>
  and \<open>b\<close> is the same in the result as in the input.
\<close>

theorem sort_stable:
  "timestamps_parse state items \<and> (useCLocaleSorting cfg \<or> consistent_comparator lc) \<and>
   SortCompare (compare lc cfg state) a b = 0 \<longrightarrow>
   filter (\<lambda>x. x = a \<or> x = b) (sortItems lc cfg items state) =
     filter (\<lambda>x. x = a \<or> x = b) items"
proof
  let ?c = "compare lc cfg state"
  let ?out = "sortItems lc cfg items state"
  let ?P = "\<lambda>x. x = a \<or> x = b"
  assume h: "timestamps_parse state items \<and> (useCLocaleSorting cfg \<or> consistent_comparator lc) \<and>
    SortCompare ?c a b = 0"
  then have anti: "useCLocaleSorting cfg \<or> sign_antisymmetric lc"
    using consistent_sign_antisymmetric by blast
  from h have ab: "SortCompare ?c a b = 0" by simp
  from anti ab have ba: "SortCompare ?c b a = 0"
    by (rule SortCompare_eq_0_sym)
  have refl: "SortCompare ?c x x = 0" for x
    using SortCompare_antisym [OF anti, of state x x] by (simp add: sgn_if split: if_splits)
  have cls: "filter (\<lambda>y. SortCompare ?c x y \<le> 0 \<and> SortCompare ?c y x \<le> 0) ?out =
      filter (\<lambda>y. SortCompare ?c x y \<le> 0 \<and> SortCompare ?c y x \<le> 0) items"
    if "x \<in> set items" for x
    using h that by (simp add: sortItems_sorted_stable(2))
  have sub: "filter ?P xs = filter ?P (filter (\<lambda>y. SortCompare ?c x y \<le> 0 \<and>
      SortCompare ?c y x \<le> 0) xs)" if "x = a \<or> x = b" for x xs
    using that ab ba refl [of a] refl [of b]
    by (auto simp: filter_filter intro!: filter_cong)
  show "filter ?P ?out = filter ?P items"
  proof (cases "a \<in> set items \<or> b \<in> set items")
    case True
    then obtain x where x: "x = a \<or> x = b" "x \<in> set items" by blast
    have "filter ?P ?out = filter ?P (filter (\<lambda>y. SortCompare ?c x y \<le> 0 \<and>
        SortCompare ?c y x \<le> 0) ?out)"
      by (rule sub [OF x(1)])
    also have "\<dots> = filter ?P (filter (\<lambda>y. SortCompare ?c x y \<le> 0 \<and>
        SortCompare ?c y x \<le> 0) items)"
      by (simp only: cls [OF x(2)])
    also have "\<dots> = filter ?P items"
      by (rule sub [OF x(1), symmetric])
    finally show ?thesis .
  next
    case False
    then have "filter ?P items = []" by (auto simp: filter_empty_conv)
    moreover from False have "filter ?P ?out = []"
      by (auto simp: filter_empty_conv set_sortItems)
    ultimately show ?thesis by simp
  qed
qed

theorem sort_stable_witness:
  "timestamps_parse name_ascending case_items \<and>
   consistent_comparator caseless_compare \<and>
   SortCompare (compare caseless_compare locale_config name_ascending)
     (file_named (asc ''abc'')) (file_named (asc ''ABC'')) = 0 \<and>
   filter (\<lambda>x. x = file_named (asc ''abc'') \<or> x = file_named (asc ''ABC''))
     (sortItems caseless_compare locale_config case_items name_ascending) =
     [file_named (asc ''abc''), file_named (asc ''ABC'')]"
  using sort_stable [of name_ascending case_items locale_config caseless_compare
      "file_named (asc ''abc'')" "file_named (asc ''ABC'')"]
    caseless_consistent case_equal case_parse [of name_ascending]
  by (simp add: case_items_def file_named_def asc_def)

text \<open>
  C5 as stated, for every entry list, fails on V8. In \<open>undated_items\<close> the entry \<open>f2\<close>
  has no parseable timestamp, so under the key \<open>last_modified\<close> it compares equal (NaN,
  read as 0) to \<open>f3\<close>, which follows it. V8 reverses the descending run \<open>f0, f1\<close>,
  leaves \<open>f2\<close> in place, and its binary search puts \<open>f3\<close> at index 1: \<open>f3\<close> ends
  before \<open>f2\<close>.
\<close>

theorem unparseable_timestamp_counterexample:
  "SortCompare (compare (\<lambda>a b. 0) initial_config time_ascending)
     (file_at (asc ''f2'') None) (file_at (asc ''f3'') (Some 20)) = 0 \<and>
   filter (\<lambda>x. x = file_at (asc ''f2'') None \<or> x = file_at (asc ''f3'') (Some 20))
     undated_items = [file_at (asc ''f2'') None, file_at (asc ''f3'') (Some 20)] \<and>
   sortItems_v8 (\<lambda>a b. 0) initial_config undated_items time_ascending =
     Some [file_at (asc ''f1'') (Some 10), file_at (asc ''f3'') (Some 20),
       file_at (asc ''f0'') (Some 30), file_at (asc ''f2'') None] \<and>
   filter (\<lambda>x. x = file_at (asc ''f2'') None \<or> x = file_at (asc ''f3'') (Some 20))
     [file_at (asc ''f1'') (Some 10), file_at (asc ''f3'') (Some 20),
       file_at (asc ''f0'') (Some 30), file_at (asc ''f2'') None] =
     [file_at (asc ''f3'') (Some 20), file_at (asc ''f2'') None]"
  by (simp add: sortItems_v8_def v8_undated)
    (simp add: eval_simps undated_items_def file_at_def time_ascending_def initial_config_def)

text \<open>
  C6. \<open>sortItems\<close> returns a permutation of its input. On the store, it returns a
  reference to a newly allocated array that holds the sorted copy, and every array that
  existed before the call, the argument among them, is unchanged.
\<close>

theorem sort_copies:
  "mset (sortItems lc cfg items state) = mset items \<and>
   length (sortItems lc cfg items state) = length items \<and>
   (ref < length s \<longrightarrow>
      fst (sortItems_store lc cfg s ref state) = length s \<and>
      fst (sortItems_store lc cfg s ref state) \<noteq> ref \<and>
      length (snd (sortItems_store lc cfg s ref state)) = Suc (length s) \<and>
      (\<forall>a. a < length s \<longrightarrow> snd (sortItems_store lc cfg s ref state) ! a = s ! a) \<and>
      snd (sortItems_store lc cfg s ref state) ! ref = s ! ref \<and>
      snd (sortItems_store lc cfg s ref state) ! fst (sortItems_store lc cfg s ref state) =
        sortItems lc cfg (s ! ref) state \<and>
      mset (snd (sortItems_store lc cfg s ref state) ! fst (sortItems_store lc cfg s ref state)) =
        mset (s ! ref))"
  by (simp add: sortItems_store_def sortItems_def mset_Array_sort length_Array_sort Let_def
      nth_append)

theorem sort_copies_witness:
  "(0::nat) < length [mixed_items] \<and>
   fst (sortItems_store (\<lambda>a b. 0) initial_config [mixed_items] 0 name_descending) = 1 \<and>
   snd (sortItems_store (\<lambda>a b. 0) initial_config [mixed_items] 0 name_descending) ! 0 =
     mixed_items \<and>
   snd (sortItems_store (\<lambda>a b. 0) initial_config [mixed_items] 0 name_descending) !
       fst (sortItems_store (\<lambda>a b. 0) initial_config [mixed_items] 0 name_descending) =
     [dir_named (asc ''src''), dir_named (asc ''docs''), file_named (asc ''b.txt''),
      notebook_named (asc ''a.ipynb'')]"
  using sort_copies [of "\<lambda>a b. 0" initial_config mixed_items name_descending 0 "[mixed_items]"]
  by (auto simp: mixed_sorted)



text \<open>
  C8. Flipping \<open>useCLocaleSorting\<close> (by the toggle command or through the settings) or
  \<open>sortNotebooksFirst\<close> (through the settings) twice restores the configuration, and
  \<open>sortItems\<close> under the twice-flipped configuration returns what it returns under the
  original one.
\<close>

theorem toggle_twice:
  "toggle_useCLocaleSorting (toggle_useCLocaleSorting cfg) = cfg \<and>
   flip_useCLocaleSorting (flip_useCLocaleSorting cfg) = cfg \<and>
   flip_sortNotebooksFirst (flip_sortNotebooksFirst cfg) = cfg \<and>
   sortItems lc (toggle_useCLocaleSorting (toggle_useCLocaleSorting cfg)) items state =
     sortItems lc cfg items state \<and>
   sortItems lc (flip_useCLocaleSorting (flip_useCLocaleSorting cfg)) items state =
     sortItems lc cfg items state \<and>
   sortItems lc (flip_sortNotebooksFirst (flip_sortNotebooksFirst cfg)) items state =
     sortItems lc cfg items state"
  by (simp add: toggle_useCLocaleSorting_def flip_useCLocaleSorting_def
      flip_sortNotebooksFirst_def load_useCLocaleSorting_def load_sortNotebooksFirst_def)

text \<open>
  C9. When the item snapshot of a listing is empty, the patched \<open>sort\<close> sets the
  listing's sorted items to the empty list and calls only the host's original \<open>sort\<close>:
  \<open>sortItems\<close> is not called. This holds for every sort state and configuration, and it
  is what the \<open>refreshed\<close> handler does with the listing's current sort state.
\<close>

theorem empty_listing_reset:
  "model (host pl) = Some [] \<longrightarrow>
   sortedItems (fst (patched_sort originalSort lc cfg state pl)) = [] \<and>
   snd (patched_sort originalSort lc cfg state pl) = [OriginalSort state] \<and>
   (\<forall>c\<in>set (snd (patched_sort originalSort lc cfg state pl)). \<not> is_SortItems c) \<and>
   host (fst (patched_sort originalSort lc cfg state pl)) =
     originalSort state ((host pl)\<lparr>priv_sortState := Some state, priv_sortedItems := []\<rparr>) \<and>
   (priv_sortState (host pl) = Some state \<longrightarrow>
      on_refreshed originalSort lc cfg pl = patched_sort originalSort lc cfg state pl)"
  by (simp add: patched_sort_def on_refreshed_def sortedItems_def)

theorem empty_listing_reset_witness:
  "model (host stale_listing) = Some [] \<and>
   priv_sortState (host stale_listing) = Some name_descending \<and>
   sortedItems (fst (on_refreshed (\<lambda>st l. l) (\<lambda>a b. 0) initial_config stale_listing)) = [] \<and>
   snd (on_refreshed (\<lambda>st l. l) (\<lambda>a b. 0) initial_config stale_listing) =
     [OriginalSort name_descending]"
  using empty_listing_reset [of stale_listing "\<lambda>st l. l" "\<lambda>a b. 0" initial_config name_descending]
  by (simp add: stale_listing_def)

text \<open>
  C10. For every key other than \<open>last_modified\<close> and \<open>file_size\<close>, entries of one
  tier are compared by the name comparator that \<open>useCLocaleSorting\<close> selects, times the
  direction multiplier; \<open>sortItems\<close> returns what it returns for the key \<open>name\<close>, a
  permutation of its input: an unrecognised key is no failure.
\<close>

theorem other_keys_sort_by_name:
  "key state \<noteq> asc ''last_modified'' \<and> key state \<noteq> asc ''file_size'' \<longrightarrow>
   (getPriority cfg a = getPriority cfg b \<longrightarrow>
      compare lc cfg state a b = Some (compareByName lc cfg a b * reverse state)) \<and>
   compareByName lc cfg a b =
     (if useCLocaleSorting cfg then cLocaleCompare (name a) (name b)
      else defaultLocaleCompare lc (name a) (name b)) \<and>
   sortItems lc cfg items state = sortItems lc cfg items (state\<lparr>key := asc ''name''\<rparr>) \<and>
   mset (sortItems lc cfg items state) = mset items"
proof (intro impI conjI)
  assume k: "key state \<noteq> asc ''last_modified'' \<and> key state \<noteq> asc ''file_size''"
  assume "getPriority cfg a = getPriority cfg b"
  with k show "compare lc cfg state a b = Some (compareByName lc cfg a b * reverse state)"
    by (simp add: compare_name)
next
  show "compareByName lc cfg a b =
     (if useCLocaleSorting cfg then cLocaleCompare (name a) (name b)
      else defaultLocaleCompare lc (name a) (name b))"
    by (simp add: compareByName_def)
next
  assume k: "key state \<noteq> asc ''last_modified'' \<and> key state \<noteq> asc ''file_size''"
  have "compare lc cfg state = compare lc cfg (state\<lparr>key := asc ''name''\<rparr>)"
    using k name_not_keys by (intro ext) (simp add: compare_def reverse_def Let_def)
  then show "sortItems lc cfg items state = sortItems lc cfg items (state\<lparr>key := asc ''name''\<rparr>)"
    by (simp add: sortItems_def)
next
  show "mset (sortItems lc cfg items state) = mset items"
    by (simp add: sortItems_def mset_Array_sort)
qed

theorem other_keys_sort_by_name_witness:
  "key unknown_key_descending \<noteq> asc ''last_modified'' \<and>
   key unknown_key_descending \<noteq> asc ''file_size'' \<and>
   compare (\<lambda>a b. 0) initial_config unknown_key_descending
     (file_named (asc ''abc'')) (file_named (asc ''abd'')) = Some 1 \<and>
   sortItems (\<lambda>a b. 0) initial_config mixed_items unknown_key_descending =
     [dir_named (asc ''src''), dir_named (asc ''docs''), file_named (asc ''b.txt''),
      notebook_named (asc ''a.ipynb'')]"
  using other_keys_sort_by_name [of unknown_key_descending initial_config
      "file_named (asc ''abc'')" "file_named (asc ''abd'')" "\<lambda>a b. 0" mixed_items]
    mixed_sorted [of "\<lambda>a b. 0"]
  by (simp add: unknown_key_descending_def name_descending_def)
    (simp add: eval_simps initial_config_def)

end
